theory Spec2Isabelle
  imports Complex_Main
begin

section \<open>Python values, exceptions and sequence operations\<close>

text \<open>
  The program is the single function \<open>train_RPBCAC(env, agents, args, exp_buffer)\<close> of
  \<open>training/train_agents.py\<close>. Python exceptions are values of \<open>error\<close>; floats are
  modelled as exact reals; Python integers are \<open>int\<close>. \<open>ShapeError\<close> stands for the
  exception numpy or TensorFlow raises on operands of incompatible shapes.
\<close>

datatype error =
    NameError string
  | IndexError
  | KeyError
  | ZeroDivisionError
  | TypeError
  | ShapeError

text \<open>\<open>xs[n]\<close> for a loop index \<open>n\<close> taken from \<open>range(...)\<close> (never negative).\<close>

definition nth_or_raise :: "'a list \<Rightarrow> nat \<Rightarrow> error + 'a" where
  "nth_or_raise xs n = (if n < length xs then Inr (xs ! n) else Inl IndexError)"

text \<open>\<open>xs[i]\<close> for an arbitrary Python integer: negative indices count from the end.\<close>

definition py_index :: "'a list \<Rightarrow> int \<Rightarrow> error + 'a" where
  "py_index xs i =
     (if 0 \<le> i \<and> i < int (length xs) then Inr (xs ! nat i)
      else if - int (length xs) \<le> i \<and> i < 0 then Inr (xs ! nat (int (length xs) + i))
      else Inl IndexError)"

text \<open>\<open>xs[-k:]\<close>: the last \<open>k\<close> entries when \<open>k > 0\<close> (all of them when there are fewer),
  the whole sequence when \<open>k = 0\<close> (\<open>-0\<close> is \<open>0\<close>), and \<open>xs[|k|:]\<close> when \<open>k < 0\<close>.\<close>

definition slice_last :: "int \<Rightarrow> 'a list \<Rightarrow> 'a list" where
  "slice_last k xs =
     (if 0 < k then drop (length xs - nat k) xs
      else if k = 0 then xs
      else drop (nat (- k)) xs)"

text \<open>\<open>del xs[:q]\<close>: removes the first \<open>q\<close> entries; a negative \<open>q\<close> counts from the end.\<close>

definition del_prefix :: "int \<Rightarrow> 'a list \<Rightarrow> 'a list" where
  "del_prefix q xs =
     (if 0 \<le> q then drop (nat q) xs else drop (nat (int (length xs) + q)) xs)"

text \<open>\<open>r[:, node]\<close> on a batched tensor given as its list of rows (one row per time step, one
  entry per agent; the trailing axis of size one is dropped).\<close>

definition column :: "nat \<Rightarrow> real list list \<Rightarrow> error + real list" where
  "column node rows =
     (if \<forall>row \<in> set rows. node < length row then Inr (map (\<lambda>row. row ! node) rows)
      else Inl IndexError)"

section \<open>Collaborators: environment and agents\<close>

type_synonym 'o state_action = "('o \<times> real list) list"

text \<open>The methods the orchestrator calls on \<open>agents[node]\<close>, with their arguments. Lines 67-71
  (encoder, attention layer and critic forward passes on the initial observation) are the one
  call \<open>critic_estimate\<close>.\<close>

datatype ('o, 'w, 'g) call =
    critic_estimate 'o
  | get_action 'o
  | TR_update_local "'o state_action" "real list"
  | critic_update_local "'o list" "'o list" "real list"
  | TR_update_compromised "'o state_action" "real list"
  | critic_update_compromised "'o list" "'o list" "real list"
  | get_TR_weights
  | get_critic_weights
  | resilient_consensus_critic_hidden "'w list"
  | resilient_consensus_TR_hidden "'w list"
  | resilient_consensus_critic "'o list" "'w list"
  | resilient_consensus_TR "'o state_action" "'w list"
  | critic_update_team "'o list" 'g
  | TR_update_team "'o state_action" 'g
  | actor_update "'o list" "'o list" "'o state_action + real list" "real list"
  | get_parameters

text \<open>The agent classes are not part of this file; they are parameters. A call changes the
  agent (\<open>effect\<close>) and returns a weight snapshot, an aggregate estimate or an action, read
  from the agent as it was when called. Scalar losses are only printed and are not modelled.\<close>

record ('ag, 'o, 'w, 'g) agent_sem =
  effect :: "('o, 'w, 'g) call \<Rightarrow> 'ag \<Rightarrow> 'ag"
  ret_weights :: "('o, 'w, 'g) call \<Rightarrow> 'ag \<Rightarrow> 'w"
  ret_agg :: "('o, 'w, 'g) call \<Rightarrow> 'ag \<Rightarrow> 'g"
  ret_action :: "('o, 'w, 'g) call \<Rightarrow> 'ag \<Rightarrow> real"

record ('e, 's, 'o) env_sem =
  env_reset :: "'e \<Rightarrow> 'e"
  env_get_data :: "'e \<Rightarrow> 's \<times> real list"
  env_get_observations :: "'e \<Rightarrow> 'o"
  env_step :: "real list \<Rightarrow> 'e \<Rightarrow> 'e"

text \<open>Calls that leave the function, in the order they happen.\<close>

datatype ('o, 'w, 'g) event =
    Env_reset
  | Env_step "real list"
  | Agent_call nat "('o, 'w, 'g) call"
  | Convert_to_tensor
  | Log_line int
  | Save_results

section \<open>Configuration and program state\<close>

text \<open>\<open>args\<close>, with \<open>env.n_agents\<close>. \<open>in_nodes\<close> is a dictionary from node to the list of its
  in-neighbours.\<close>

record args =
  n_agents :: nat
  n_states :: int
  agent_label :: "string list"
  gamma :: real
  in_nodes :: "nat \<Rightarrow> int list option"
  max_ep_len :: int
  n_episodes :: int
  n_ep_fixed :: int
  n_epochs :: int
  batch_size :: int
  buffer_size :: int
  common_reward :: bool

text \<open>The objects and the local variables of \<open>train_RPBCAC\<close>. A local that may be read before
  it is bound is an option (\<open>None\<close>: unbound). \<open>var_ep_returns = None\<close> is the integer \<open>0\<close>
  of line 52, before the first reward array is added. \<open>trace\<close> records the outgoing calls.\<close>

record ('e, 'ag, 's, 'o, 'w, 'g) state =
  env :: 'e
  agents :: "'ag list"
  states :: "'s list"
  nstates :: "'s list"
  actions :: "real list list"
  rewards :: "real list list"
  observations :: "'o list option"
  nobservations :: "'o list option"
  var_state :: "'s option"
  var_observation :: "'o option"
  var_action :: "real list"
  var_ep_returns :: "real list option"
  var_run_dir :: bool
  var_x :: "'w option"
  var_y :: "'w option"
  TR_weights :: "'w list"
  critic_weights :: "'w list"
  trace :: "('o, 'w, 'g) event list"

type_synonym ('e, 'ag, 's, 'o, 'w, 'g) cmd =
  "('e, 'ag, 's, 'o, 'w, 'g) state \<Rightarrow> error option \<times> ('e, 'ag, 's, 'o, 'w, 'g) state"

text \<open>Statements: a statement runs on the state and either completes or raises; the state
  reached when it raises is kept.\<close>

definition pass :: "('e, 'ag, 's, 'o, 'w, 'g) cmd" where
  "pass s = (None, s)"

definition raise :: "error \<Rightarrow> ('e, 'ag, 's, 'o, 'w, 'g) cmd" where
  "raise e s = (Some e, s)"

definition modify ::
  "(('e, 'ag, 's, 'o, 'w, 'g) state \<Rightarrow> ('e, 'ag, 's, 'o, 'w, 'g) state) \<Rightarrow> ('e, 'ag, 's, 'o, 'w, 'g) cmd" where
  "modify f s = (None, f s)"

definition seq ::
  "('e, 'ag, 's, 'o, 'w, 'g) cmd \<Rightarrow> ('e, 'ag, 's, 'o, 'w, 'g) cmd \<Rightarrow> ('e, 'ag, 's, 'o, 'w, 'g) cmd" where
  "seq c d s = (case c s of (None, s') \<Rightarrow> d s' | (Some e, s') \<Rightarrow> (Some e, s'))"

fun block :: "('e, 'ag, 's, 'o, 'w, 'g) cmd list \<Rightarrow> ('e, 'ag, 's, 'o, 'w, 'g) cmd" where
  "block [] = pass"
| "block (c # cs) = seq c (block cs)"

text \<open>Evaluate an expression that may raise, then continue with its value.\<close>

definition eval ::
  "(('e, 'ag, 's, 'o, 'w, 'g) state \<Rightarrow> error + 'a) \<Rightarrow> ('a \<Rightarrow> ('e, 'ag, 's, 'o, 'w, 'g) cmd) \<Rightarrow>
   ('e, 'ag, 's, 'o, 'w, 'g) cmd" where
  "eval e k s = (case e s of Inl err \<Rightarrow> (Some err, s) | Inr v \<Rightarrow> k v s)"

text \<open>\<open>for x in xs: body\<close>.\<close>

fun for_each ::
  "'i list \<Rightarrow> ('i \<Rightarrow> ('e, 'ag, 's, 'o, 'w, 'g) cmd) \<Rightarrow> ('e, 'ag, 's, 'o, 'w, 'g) cmd" where
  "for_each [] body s = (None, s)"
| "for_each (x # xs) body s =
     (case body x s of (None, s') \<Rightarrow> for_each xs body s' | (Some e, s') \<Rightarrow> (Some e, s'))"

text \<open>\<open>result = agents[node].method(...)\<close>: \<open>agents[node]\<close> raises IndexError past the end of
  the list; otherwise the call is recorded, the agent changes and the code continues with
  the returned value.\<close>

definition call_ret ::
  "('ag, 'o, 'w, 'g) agent_sem \<Rightarrow> nat \<Rightarrow> ('o, 'w, 'g) call \<Rightarrow> ('ag \<Rightarrow> 'r) \<Rightarrow>
   ('r \<Rightarrow> ('e, 'ag, 's, 'o, 'w, 'g) cmd) \<Rightarrow> ('e, 'ag, 's, 'o, 'w, 'g) cmd" where
  "call_ret A node c ret k s =
     (if node < length (agents s) then
        (let ag = agents s ! node
         in k (ret ag)
              (s\<lparr>agents := (agents s)[node := effect A c ag],
                 trace := trace s @ [Agent_call node c]\<rparr>))
      else (Some IndexError, s))"

text \<open>\<open>agents[node].method(...)\<close> with the result discarded.\<close>

definition call_agent ::
  "('ag, 'o, 'w, 'g) agent_sem \<Rightarrow> nat \<Rightarrow> ('o, 'w, 'g) call \<Rightarrow> ('e, 'ag, 's, 'o, 'w, 'g) cmd" where
  "call_agent A node c = call_ret A node c (\<lambda>_. ()) (\<lambda>_. pass)"


text \<open>\<open>while j < m: j += 1; body\<close>. The body receives the value of \<open>j\<close> before the
  increment.\<close>

function while_steps ::
  "(int \<Rightarrow> ('e, 'ag, 's, 'o, 'w, 'g) cmd) \<Rightarrow> int \<Rightarrow> int \<Rightarrow> ('e, 'ag, 's, 'o, 'w, 'g) cmd" where
  "while_steps body m j s =
     (if j < m then
        (case body j s of
           (None, s') \<Rightarrow> while_steps body m (j + 1) s'
         | (Some e, s') \<Rightarrow> (Some e, s'))
      else (None, s))"
  by pat_completeness auto
termination
  by (relation "measure (\<lambda>(body, m, j, s). nat (m - j))") auto

section \<open>The batched update cycle (lines 100-180)\<close>

text \<open>The tensors of lines 102-108 and \<open>r_coop\<close>. \<open>s\<close> and \<open>ns\<close> are never read again and
  are left out. \<open>sa\<close> pairs each observation with the action vector of its step; the
  concatenation needs as many observations as actions.\<close>

record 'o batch =
  b_r :: "real list list"
  b_a :: "real list list"
  b_obs :: "'o list"
  b_nobs :: "'o list"
  b_sa :: "'o state_action"
  b_r_coop :: "real list"

definition convert_experiences :: "('e, 'ag, 's, 'o, 'w, 'g) state \<Rightarrow> error + 'o batch" where
  "convert_experiences s =
     (case observations s of
        None \<Rightarrow> Inl (NameError ''observations'')
      | Some obs \<Rightarrow>
          (case nobservations s of
             None \<Rightarrow> Inl (NameError ''nobservations'')
           | Some nobs \<Rightarrow>
               if length obs = length (actions s) then
                 Inr \<lparr>b_r = rewards s, b_a = actions s, b_obs = obs, b_nobs = nobs,
                      b_sa = zip obs (actions s), b_r_coop = []\<rparr>
               else Inl ShapeError))"

text \<open>Line 33: \<open>n_coop = args['agent_label'].count('Cooperative')\<close>.\<close>

definition n_coop :: "args \<Rightarrow> nat" where
  "n_coop P = count_list (agent_label P) ''Cooperative''"

text \<open>Lines 111-113: \<open>r_coop\<close> starts as zeros, one per time step, and each Cooperative node
  \<open>x\<close> of \<open>range(n_agents)\<close> adds \<open>r[:, x] / n_coop\<close>.\<close>

fun team_average_reward ::
  "args \<Rightarrow> real list list \<Rightarrow> nat list \<Rightarrow> real list \<Rightarrow> error + real list" where
  "team_average_reward P r [] r_coop = Inr r_coop"
| "team_average_reward P r (x # xs) r_coop =
     (case nth_or_raise (agent_label P) x of
        Inl e \<Rightarrow> Inl e
      | Inr label \<Rightarrow>
          if label = ''Cooperative'' then
            (case column x r of
               Inl e \<Rightarrow> Inl e
             | Inr c \<Rightarrow>
                 team_average_reward P r xs
                   (map2 (\<lambda>u v. u + v) r_coop (map (\<lambda>v. v / real (n_coop P)) c)))
          else team_average_reward P r xs r_coop)"

text \<open>\<open>x, loss = agents[node].method(...)\<close> and \<open>y, loss = agents[node].method(...)\<close>.\<close>

definition assign_x ::
  "('ag, 'o, 'w, 'g) agent_sem \<Rightarrow> nat \<Rightarrow> ('o, 'w, 'g) call \<Rightarrow> ('e, 'ag, 's, 'o, 'w, 'g) cmd" where
  "assign_x A node c = call_ret A node c (ret_weights A c) (\<lambda>w. modify (\<lambda>s. s\<lparr>var_x := Some w\<rparr>))"

definition assign_y ::
  "('ag, 'o, 'w, 'g) agent_sem \<Rightarrow> nat \<Rightarrow> ('o, 'w, 'g) call \<Rightarrow> ('e, 'ag, 's, 'o, 'w, 'g) cmd" where
  "assign_y A node c = call_ret A node c (ret_weights A c) (\<lambda>w. modify (\<lambda>s. s\<lparr>var_y := Some w\<rparr>))"

text \<open>Stage I, lines 121-136: the body of \<open>for node in range(n_agents)\<close>. With a label that
  is none of the four roles no branch runs and \<open>x\<close>, \<open>y\<close> keep their last values.\<close>

definition local_updates ::
  "('ag, 'o, 'w, 'g) agent_sem \<Rightarrow> args \<Rightarrow> 'o batch \<Rightarrow> nat \<Rightarrow> ('e, 'ag, 's, 'o, 'w, 'g) cmd" where
  "local_updates A P b node =
     eval (\<lambda>_. if common_reward P then Inr (b_r_coop b) else column node (b_r b)) (\<lambda>r_applied.
     eval (\<lambda>_. nth_or_raise (agent_label P) node) (\<lambda>label.
     block [
       if label = ''Cooperative'' then
         block [
           assign_x A node (TR_update_local (b_sa b) r_applied),
           assign_y A node (critic_update_local (b_obs b) (b_nobs b) r_applied)]
       else if label = ''Greedy'' then
         eval (\<lambda>_. column node (b_r b)) (\<lambda>r_node.
         block [
           assign_x A node (TR_update_local (b_sa b) r_node),
           assign_y A node (critic_update_local (b_obs b) (b_nobs b) r_node)])
       else if label = ''Malicious'' then
         eval (\<lambda>_. column node (b_r b)) (\<lambda>r_node.
         block [
           call_agent A node (critic_update_local (b_obs b) (b_nobs b) r_node),
           assign_x A node (TR_update_compromised (b_sa b) (map uminus (b_r_coop b))),
           assign_y A node
             (critic_update_compromised (b_obs b) (b_nobs b) (map uminus (b_r_coop b)))])
       else if label = ''Faulty'' then
         block [
           assign_x A node get_TR_weights,
           assign_y A node get_critic_weights]
       else pass,
       eval (\<lambda>s. case var_x s of None \<Rightarrow> Inl (NameError ''x'') | Some x \<Rightarrow> Inr x)
         (\<lambda>x. modify (\<lambda>s. s\<lparr>TR_weights := TR_weights s @ [x]\<rparr>)),
       eval (\<lambda>s. case var_y s of None \<Rightarrow> Inl (NameError ''y'') | Some y \<Rightarrow> Inr y)
         (\<lambda>y. modify (\<lambda>s. s\<lparr>critic_weights := critic_weights s @ [y]\<rparr>))]))"

text \<open>Lines 144-145: \<open>[weights[i] for i in in_nodes[node]]\<close>.\<close>

fun gather :: "'w list \<Rightarrow> int list \<Rightarrow> error + 'w list" where
  "gather ws [] = Inr []"
| "gather ws (i # is) =
     (case py_index ws i of
        Inl e \<Rightarrow> Inl e
      | Inr w \<Rightarrow> (case gather ws is of Inl e \<Rightarrow> Inl e | Inr rest \<Rightarrow> Inr (w # rest)))"

definition innodes ::
  "args \<Rightarrow> nat \<Rightarrow> 'w list \<Rightarrow> error + 'w list" where
  "innodes P node ws =
     (case in_nodes P node of None \<Rightarrow> Inl KeyError | Some nb \<Rightarrow> gather ws nb)"

text \<open>Stage II, lines 140-160: the generator yields the nodes of \<open>range(n_agents)\<close> whose
  label is Cooperative, reading each label when its turn comes.\<close>

definition consensus_updates ::
  "('ag, 'o, 'w, 'g) agent_sem \<Rightarrow> args \<Rightarrow> 'o batch \<Rightarrow> nat \<Rightarrow> ('e, 'ag, 's, 'o, 'w, 'g) cmd" where
  "consensus_updates A P b node =
     eval (\<lambda>_. nth_or_raise (agent_label P) node) (\<lambda>label.
     if label = ''Cooperative'' then
       eval (\<lambda>s. innodes P node (critic_weights s)) (\<lambda>critic_weights_innodes.
       eval (\<lambda>s. innodes P node (TR_weights s)) (\<lambda>TR_weights_innodes.
       block [
         call_agent A node (resilient_consensus_critic_hidden critic_weights_innodes),
         call_agent A node (resilient_consensus_TR_hidden TR_weights_innodes),
         call_ret A node (resilient_consensus_critic (b_obs b) critic_weights_innodes)
           (ret_agg A (resilient_consensus_critic (b_obs b) critic_weights_innodes))
           (\<lambda>critic_agg.
         call_ret A node (resilient_consensus_TR (b_sa b) TR_weights_innodes)
           (ret_agg A (resilient_consensus_TR (b_sa b) TR_weights_innodes))
           (\<lambda>TR_agg.
         block [
           call_agent A node (critic_update_team (b_obs b) critic_agg),
           call_agent A node (TR_update_team (b_sa b) TR_agg)]))]))
     else pass)"

text \<open>Lines 116-160: the body of \<open>for n in range(n_epochs)\<close>.\<close>

definition epoch ::
  "('ag, 'o, 'w, 'g) agent_sem \<Rightarrow> args \<Rightarrow> 'o batch \<Rightarrow> ('e, 'ag, 's, 'o, 'w, 'g) cmd" where
  "epoch A P b =
     block [
       modify (\<lambda>s. s\<lparr>critic_weights := [], TR_weights := []\<rparr>),
       for_each [0..<n_agents P] (local_updates A P b),
       for_each [0..<n_agents P] (consensus_updates A P b)]"

text \<open>Stage III, lines 165-168: the body of \<open>for node in range(n_agents)\<close>.\<close>

definition actor_updates ::
  "('ag, 'o, 'w, 'g) agent_sem \<Rightarrow> args \<Rightarrow> 'o batch \<Rightarrow> nat \<Rightarrow> ('e, 'ag, 's, 'o, 'w, 'g) cmd" where
  "actor_updates A P b node =
     (let k = max_ep_len P * n_ep_fixed P in
      eval (\<lambda>_. nth_or_raise (agent_label P) node) (\<lambda>label.
      if label = ''Cooperative'' then
        eval (\<lambda>_. column node (slice_last k (b_a b))) (\<lambda>a_node.
        call_agent A node
          (actor_update (slice_last k (b_obs b)) (slice_last k (b_nobs b))
             (Inl (slice_last k (b_sa b))) a_node))
      else
        eval (\<lambda>_. column node (slice_last k (b_r b))) (\<lambda>r_node.
        eval (\<lambda>_. column node (slice_last k (b_a b))) (\<lambda>a_node.
        call_agent A node
          (actor_update (slice_last k (b_obs b)) (slice_last k (b_nobs b))
             (Inr r_node) a_node)))))"

text \<open>Stage IV, lines 173-180.\<close>

definition the_list :: "string \<Rightarrow> 'a list option \<Rightarrow> error + 'a list" where
  "the_list name v = (case v of None \<Rightarrow> Inl (NameError name) | Some xs \<Rightarrow> Inr xs)"

definition trim_buffers :: "args \<Rightarrow> ('e, 'ag, 's, 'o, 'w, 'g) cmd" where
  "trim_buffers P s =
     (if int (length (states s)) > buffer_size P then
        (let q = int (length (states s)) - buffer_size P in
         block [
           modify (\<lambda>s. s\<lparr>states := del_prefix q (states s)\<rparr>),
           modify (\<lambda>s. s\<lparr>nstates := del_prefix q (nstates s)\<rparr>),
           modify (\<lambda>s. s\<lparr>actions := del_prefix q (actions s)\<rparr>),
           modify (\<lambda>s. s\<lparr>rewards := del_prefix q (rewards s)\<rparr>),
           eval (\<lambda>s. the_list ''observations'' (observations s))
             (\<lambda>obs. modify (\<lambda>s. s\<lparr>observations := Some (del_prefix q obs)\<rparr>)),
           eval (\<lambda>s. the_list ''nobservations'' (nobservations s))
             (\<lambda>nobs. modify (\<lambda>s. s\<lparr>nobservations := Some (del_prefix q nobs)\<rparr>))] s)
      else (None, s))"

text \<open>Lines 101-180: the body of \<open>if i == n_ep_fixed-1 and j == max_ep_len\<close>.\<close>

definition update_cycle ::
  "('ag, 'o, 'w, 'g) agent_sem \<Rightarrow> args \<Rightarrow> ('e, 'ag, 's, 'o, 'w, 'g) cmd" where
  "update_cycle A P =
     seq (modify (\<lambda>s. s\<lparr>trace := trace s @ [Convert_to_tensor]\<rparr>))
     (eval convert_experiences (\<lambda>b0.
      eval (\<lambda>_. team_average_reward P (b_r b0) [0..<n_agents P]
                  (replicate (length (b_r b0)) 0)) (\<lambda>r_coop.
      block [
        for_each [0..<nat (n_epochs P)] (\<lambda>n. epoch A P (b0\<lparr>b_r_coop := r_coop\<rparr>)),
        for_each [0..<n_agents P] (actor_updates A P (b0\<lparr>b_r_coop := r_coop\<rparr>)),
        trim_buffers P])))"

section \<open>Episodes (lines 51-205)\<close>

text \<open>Line 81: \<open>ep_returns += reward * (gamma ** j)\<close>. The first addition replaces the integer
  \<open>0\<close> by the array; later ones add in place, broadcasting an addend of length one.\<close>

definition add_returns :: "real list \<Rightarrow> ('e, 'ag, 's, 'o, 'w, 'g) cmd" where
  "add_returns v s =
     (case var_ep_returns s of
        None \<Rightarrow> (None, s\<lparr>var_ep_returns := Some v\<rparr>)
      | Some u \<Rightarrow>
          if length v = length u then
            (None, s\<lparr>var_ep_returns := Some (map2 (\<lambda>a b. a + b) u v)\<rparr>)
          else if length v = 1 then
            (None, s\<lparr>var_ep_returns := Some (map (\<lambda>a. a + hd v) u)\<rparr>)
          else (Some ShapeError, s))"

definition the_var :: "string \<Rightarrow> 'a option \<Rightarrow> error + 'a" where
  "the_var name v = (case v of None \<Rightarrow> Inl (NameError name) | Some x \<Rightarrow> Inr x)"

text \<open>Lines 76-77: every agent chooses its action from the current observation.\<close>

definition choose_actions ::
  "('ag, 'o, 'w, 'g) agent_sem \<Rightarrow> args \<Rightarrow> ('e, 'ag, 's, 'o, 'w, 'g) cmd" where
  "choose_actions A P =
     for_each [0..<n_agents P] (\<lambda>node.
       eval (\<lambda>s. the_var ''observation'' (var_observation s)) (\<lambda>observation.
       call_ret A node (get_action observation) (ret_action A (get_action observation))
         (\<lambda>v. modify (\<lambda>s. s\<lparr>var_action := (var_action s)[node := v]\<rparr>))))"

text \<open>Line 78: \<open>env.step(action)\<close>.\<close>

definition advance :: "('e, 's, 'o) env_sem \<Rightarrow> ('e, 'ag, 's, 'o, 'w, 'g) cmd" where
  "advance E =
     modify (\<lambda>s. s\<lparr>env := env_step E (var_action s) (env s),
                    trace := trace s @ [Env_step (var_action s)]\<rparr>)"

text \<open>Lines 79-93: read the new state, reward and observation, add the discounted reward
  to the episode return (\<open>j\<close> is still the value before line 82 increments it) and append
  the transition to the six experience lists.\<close>

definition record_transition ::
  "('e, 's, 'o) env_sem \<Rightarrow> args \<Rightarrow> int \<Rightarrow> ('e, 'ag, 's, 'o, 'w, 'g) cmd" where
  "record_transition E P j s =
     (let nstate = fst (env_get_data E (env s));
          reward = snd (env_get_data E (env s));
          nobservation = env_get_observations E (env s)
      in block [
           add_returns (map (\<lambda>v. v * gamma P ^ nat j) reward),
           eval (\<lambda>s. the_var ''state'' (var_state s))
             (\<lambda>state. modify (\<lambda>s. s\<lparr>states := states s @ [state]\<rparr>)),
           modify (\<lambda>s. s\<lparr>nstates := nstates s @ [nstate]\<rparr>),
           modify (\<lambda>s. s\<lparr>actions := actions s @ [var_action s]\<rparr>),
           modify (\<lambda>s. s\<lparr>rewards := rewards s @ [reward]\<rparr>),
           eval (\<lambda>s. the_list ''observations'' (observations s)) (\<lambda>obs.
           eval (\<lambda>s. the_var ''observation'' (var_observation s)) (\<lambda>observation.
             modify (\<lambda>s. s\<lparr>observations := Some (obs @ [observation])\<rparr>))),
           eval (\<lambda>s. the_list ''nobservations'' (nobservations s)) (\<lambda>nobs.
             modify (\<lambda>s. s\<lparr>nobservations := Some (nobs @ [nobservation])\<rparr>)),
           modify (\<lambda>s. s\<lparr>var_state := Some nstate, var_observation := Some nobservation\<rparr>)] s)"

text \<open>Lines 76-180: the body of \<open>while j < max_ep_len\<close>; \<open>j\<close> is the value before line 82
  increments it, so line 100 compares \<open>j + 1\<close> with \<open>max_ep_len\<close>.\<close>

definition simulate_step ::
  "('ag, 'o, 'w, 'g) agent_sem \<Rightarrow> ('e, 's, 'o) env_sem \<Rightarrow> args \<Rightarrow> int \<Rightarrow> int \<Rightarrow>
   ('e, 'ag, 's, 'o, 'w, 'g) cmd" where
  "simulate_step A E P i j =
     block [
       choose_actions A P,
       advance E,
       record_transition E P j,
       if i = n_ep_fixed P - 1 \<and> j + 1 = max_ep_len P then update_cycle A P else pass]"

text \<open>Lines 65-71: the Cooperative nodes estimate the return of the initial observation.\<close>

definition estimate_returns ::
  "('ag, 'o, 'w, 'g) agent_sem \<Rightarrow> args \<Rightarrow> ('e, 'ag, 's, 'o, 'w, 'g) cmd" where
  "estimate_returns A P =
     for_each [0..<n_agents P] (\<lambda>node.
       eval (\<lambda>_. nth_or_raise (agent_label P) node) (\<lambda>label.
       if label = ''Cooperative'' then
         eval (\<lambda>s. the_var ''observation'' (var_observation s)) (\<lambda>observation.
         call_agent A node (critic_estimate observation))
       else pass))"

text \<open>Lines 185-199: the episode summary. Its numbers are not modelled, only the exceptions
  its reads can raise: \<open>ep_returns[node]\<close> on the integer \<open>0\<close> (no step was taken) or past
  the end of the array, and the names bound at line 190 in the first episode.\<close>

definition episode_summary :: "args \<Rightarrow> int \<Rightarrow> int \<Rightarrow> ('e, 'ag, 's, 'o, 'w, 'g) cmd" where
  "episode_summary P t i =
     block [
       for_each [0..<n_agents P] (\<lambda>node.
         eval (\<lambda>_. nth_or_raise (agent_label P) node) (\<lambda>label.
         eval (\<lambda>s. case var_ep_returns s of
                      None \<Rightarrow> Inl TypeError
                    | Some u \<Rightarrow> nth_or_raise u node) (\<lambda>_. pass))),
       modify (\<lambda>s. if t = 0 \<and> i = 0 then s\<lparr>var_run_dir := True\<rparr> else s),
       eval (\<lambda>s. if var_run_dir s then Inr () else Inl (NameError ''log_filename''))
         (\<lambda>_. modify (\<lambda>s. s\<lparr>trace := trace s @ [Log_line t]\<rparr>))]"

text \<open>Lines 52-205: the body of \<open>for t in range(n_episodes)\<close>. Line 55 raises when
  \<open>n_ep_fixed\<close> is zero; Python's \<open>%\<close> takes the sign of the divisor, as \<open>mod\<close> does.\<close>

definition episode ::
  "('ag, 'o, 'w, 'g) agent_sem \<Rightarrow> ('e, 's, 'o) env_sem \<Rightarrow> args \<Rightarrow> int \<Rightarrow>
   ('e, 'ag, 's, 'o, 'w, 'g) cmd" where
  "episode A E P t =
     block [
       modify (\<lambda>s. s\<lparr>var_ep_returns := None, var_action := replicate (n_agents P) 0\<rparr>),
       eval (\<lambda>_. if n_ep_fixed P = 0 then Inl ZeroDivisionError else Inr (t mod n_ep_fixed P))
         (\<lambda>i.
       block [
         modify (\<lambda>s. s\<lparr>env := env_reset E (env s), trace := trace s @ [Env_reset]\<rparr>),
         modify (\<lambda>s. s\<lparr>var_state := Some (fst (env_get_data E (env s))),
                        var_observation := Some (env_get_observations E (env s))\<rparr>),
         estimate_returns A P,
         while_steps (simulate_step A E P i) (max_ep_len P) 0,
         episode_summary P t i])]"

section \<open>The whole run\<close>

text \<open>Lines 39-47. \<open>exp_buffer\<close> is \<open>None\<close> or the six experience lists. The restore branch
  binds the fifth and sixth list to the names \<open>observation\<close> and \<open>nobservation\<close>, which
  lines 61 and 80 rebind before any read; \<open>observations\<close> and \<open>nobservations\<close> stay
  unbound.\<close>

type_synonym ('s, 'o) exp_buffer =
  "'s list \<times> 's list \<times> real list list \<times> real list list \<times> 'o list \<times> 'o list"

definition initial_state ::
  "'e \<Rightarrow> 'ag list \<Rightarrow> ('s, 'o) exp_buffer option \<Rightarrow> ('e, 'ag, 's, 'o, 'w, 'g) state" where
  "initial_state env0 agents0 exp_buffer =
     (let s0 = \<lparr>env = env0, agents = agents0,
                states = [], nstates = [], actions = [], rewards = [],
                observations = Some [], nobservations = Some [],
                var_state = None, var_observation = None, var_action = [],
                var_ep_returns = None, var_run_dir = False,
                var_x = None, var_y = None, TR_weights = [], critic_weights = [],
                trace = []\<rparr>
      in case exp_buffer of
           Some (b0, b1, b2, b3, b4, b5) \<Rightarrow>
             s0\<lparr>states := b0, nstates := b1, actions := b2, rewards := b3,
                observations := None, nobservations := None\<rparr>
         | None \<Rightarrow> s0)"

definition train_RPBCAC ::
  "('ag, 'o, 'w, 'g) agent_sem \<Rightarrow> ('e, 's, 'o) env_sem \<Rightarrow> args \<Rightarrow> 'e \<Rightarrow> 'ag list \<Rightarrow>
   ('s, 'o) exp_buffer option \<Rightarrow> error option \<times> ('e, 'ag, 's, 'o, 'w, 'g) state" where
  "train_RPBCAC A E P env0 agents0 exp_buffer =
     block [
       for_each (map int [0..<nat (n_episodes P)]) (episode A E P),
       eval (\<lambda>s. if var_run_dir s then Inr () else Inl (NameError ''run_dir''))
         (\<lambda>_. modify (\<lambda>s. s\<lparr>trace := trace s @ [Save_results]\<rparr>)),
       (\<lambda>s. for_each [0..<length (agents s)] (\<lambda>k. call_agent A k get_parameters) s)]
       (initial_state env0 agents0 exp_buffer)"

section \<open>Observing a run\<close>

text \<open>The calls a statement makes when run from state \<open>s\<close>: what it adds to the trace.\<close>

definition emitted ::
  "('e, 'ag, 's, 'o, 'w, 'g) cmd \<Rightarrow> ('e, 'ag, 's, 'o, 'w, 'g) state \<Rightarrow> ('o, 'w, 'g) event list" where
  "emitted c s = drop (length (trace s)) (trace (snd (c s)))"

text \<open>A statement that, from every state and whether or not it raises, only adds calls
  satisfying \<open>Q\<close> to the trace.\<close>

definition emits ::
  "(('o, 'w, 'g) event \<Rightarrow> bool) \<Rightarrow> ('e, 'ag, 's, 'o, 'w, 'g) cmd \<Rightarrow> bool" where
  "emits Q c \<longleftrightarrow> (\<forall>s. \<exists>evs. trace (snd (c s)) = trace s @ evs \<and> list_all Q evs)"

section \<open>A concrete run\<close>

text \<open>Four agents with roles Cooperative, Cooperative, Greedy, Malicious. An agent is the
  number of calls it has served; a snapshot or an aggregate is that number after the call.
  The environment counts its steps and always pays the reward vector \<open>[1, 2, 3, 4]\<close>.\<close>

definition demo_agents :: "(nat, nat, nat, nat) agent_sem" where
  "demo_agents =
     \<lparr>effect = (\<lambda>c ag. Suc ag), ret_weights = (\<lambda>c ag. Suc ag),
      ret_agg = (\<lambda>c ag. Suc ag), ret_action = (\<lambda>c ag. real ag)\<rparr>"

definition demo_env :: "(nat, nat, nat) env_sem" where
  "demo_env =
     \<lparr>env_reset = (\<lambda>e. 0), env_get_data = (\<lambda>e. (e, [1, 2, 3, 4])),
      env_get_observations = (\<lambda>e. 10 + e), env_step = (\<lambda>a e. Suc e)\<rparr>"

definition demo_args :: args where
  "demo_args =
     \<lparr>n_agents = 4, n_states = 1,
      agent_label = [''Cooperative'', ''Cooperative'', ''Greedy'', ''Malicious''],
      gamma = 1 / 2, in_nodes = [0 \<mapsto> [1, 2], 1 \<mapsto> [0, 3]],
      max_ep_len = 2, n_episodes = 2, n_ep_fixed = 2, n_epochs = 1, batch_size = 1,
      buffer_size = 3, common_reward = True\<rparr>"

definition demo_state :: "(nat, nat, nat, nat, nat, nat) state" where
  "demo_state = initial_state 0 [0, 0, 0, 0] None"

text \<open>The batch of one transition with reward vector \<open>[1, 2, 3, 4]\<close>, and its team-average
  reward.\<close>

definition demo_batch :: "nat batch" where
  "demo_batch =
     \<lparr>b_r = [[1, 2, 3, 4]], b_a = [[0, 0, 0, 0]], b_obs = [10], b_nobs = [11],
      b_sa = [(10, [0, 0, 0, 0])], b_r_coop = [3 / 2]\<rparr>"


text \<open>The last \<open>n\<close> entries of a list, in their order.\<close>

definition latest :: "nat \<Rightarrow> 'a list \<Rightarrow> 'a list" where
  "latest n xs = drop (length xs - n) xs"

text \<open>The reward signal a local TR or critic update receives.\<close>

definition local_update_reward :: "('o, 'w, 'g) call \<Rightarrow> real list option" where
  "local_update_reward c =
     (case c of
        TR_update_local sa r \<Rightarrow> Some r
      | critic_update_local obs nobs r \<Rightarrow> Some r
      | _ \<Rightarrow> None)"

text \<open>A state whose six experience lists hold five transitions.\<close>

definition demo_full_state :: "(nat, nat, nat, nat, nat, nat) state" where
  "demo_full_state =
     demo_state\<lparr>states := [0, 1, 2, 3, 4], nstates := [1, 2, 3, 4, 5],
                actions := [[0], [1], [2], [3], [4]], rewards := [[5], [6], [7], [8], [9]],
                observations := Some [10, 11, 12, 13, 14],
                nobservations := Some [11, 12, 13, 14, 15]\<rparr>"

section \<open>Kinds of calls\<close>

text \<open>The calls of Stage II: hidden-layer consensus, output consensus and team updates.\<close>

definition consensus_call :: "('o, 'w, 'g) call \<Rightarrow> bool" where
  "consensus_call c =
     (case c of
        resilient_consensus_critic_hidden ws \<Rightarrow> True
      | resilient_consensus_TR_hidden ws \<Rightarrow> True
      | resilient_consensus_critic obs ws \<Rightarrow> True
      | resilient_consensus_TR sa ws \<Rightarrow> True
      | critic_update_team obs g \<Rightarrow> True
      | TR_update_team sa g \<Rightarrow> True
      | _ \<Rightarrow> False)"

text \<open>The critic snapshots and the TR snapshots a call consumes.\<close>

definition critic_snapshots :: "('o, 'w, 'g) call \<Rightarrow> 'w list option" where
  "critic_snapshots c =
     (case c of
        resilient_consensus_critic_hidden ws \<Rightarrow> Some ws
      | resilient_consensus_critic obs ws \<Rightarrow> Some ws
      | _ \<Rightarrow> None)"

definition TR_snapshots :: "('o, 'w, 'g) call \<Rightarrow> 'w list option" where
  "TR_snapshots c =
     (case c of
        resilient_consensus_TR_hidden ws \<Rightarrow> Some ws
      | resilient_consensus_TR sa ws \<Rightarrow> Some ws
      | _ \<Rightarrow> None)"

text \<open>\<open>ws\<close> is, entry by entry and in order, what the nodes listed in \<open>in_nodes[v]\<close>
  contributed to the list \<open>weights\<close>.\<close>

definition from_in_nodes :: "args \<Rightarrow> nat \<Rightarrow> 'w list \<Rightarrow> 'w list \<Rightarrow> bool" where
  "from_in_nodes P v weights ws \<longleftrightarrow>
     (\<exists>nb. in_nodes P v = Some nb \<and> length ws = length nb \<and>
           (\<forall>k<length nb. py_index weights (nb ! k) = Inr (ws ! k)))"

text \<open>The concrete state after a Stage I pass: one snapshot per node in each list.\<close>

definition demo_consensus_state :: "(nat, nat, nat, nat, nat, nat) state" where
  "demo_consensus_state =
     demo_state\<lparr>TR_weights := [10, 11, 12, 13], critic_weights := [20, 21, 22, 23]\<rparr>"

text \<open>A Stage II call of node \<open>v\<close>: \<open>v\<close> is labelled Cooperative, the call is one of the six
  consensus and team-update calls, and the snapshots it consumes come from \<open>in_nodes[v]\<close>
  (\<open>cw\<close> and \<open>tw\<close> are the critic and TR snapshot lists of the epoch).\<close>

definition consensus_event ::
  "args \<Rightarrow> nat \<Rightarrow> 'w list \<Rightarrow> 'w list \<Rightarrow> ('o, 'w, 'g) event \<Rightarrow> bool" where
  "consensus_event P v cw tw ev \<longleftrightarrow>
     (\<exists>c. ev = Agent_call v c \<and> nth_or_raise (agent_label P) v = Inr ''Cooperative'' \<and>
          consensus_call c \<and>
          (\<forall>ws. critic_snapshots c = Some ws \<longrightarrow> from_in_nodes P v cw ws) \<and>
          (\<forall>ws. TR_snapshots c = Some ws \<longrightarrow> from_in_nodes P v tw ws))"

text \<open>The calls of Stage I and of the actor pass, and the events that carry them.\<close>

definition stage1_call :: "('o, 'w, 'g) call \<Rightarrow> bool" where
  "stage1_call c =
     (case c of
        TR_update_local sa r \<Rightarrow> True
      | critic_update_local obs nobs r \<Rightarrow> True
      | TR_update_compromised sa r \<Rightarrow> True
      | critic_update_compromised obs nobs r \<Rightarrow> True
      | get_TR_weights \<Rightarrow> True
      | get_critic_weights \<Rightarrow> True
      | _ \<Rightarrow> False)"

definition actor_call :: "('o, 'w, 'g) call \<Rightarrow> bool" where
  "actor_call c = (case c of actor_update obs nobs x a \<Rightarrow> True | _ \<Rightarrow> False)"

definition agent_event :: "('o, 'w, 'g) event \<Rightarrow> bool" where
  "agent_event ev = (case ev of Agent_call v c \<Rightarrow> True | _ \<Rightarrow> False)"




text \<open>The schedule of a run: an episode starts (\<open>Reset\<close>), the environment takes a step
  (\<open>Step\<close>), an update cycle starts converting the buffer (\<open>Cycle\<close>), or a call of the update
  cycle is made (\<open>Update\<close>: a Stage I, Stage II or actor call). Choosing actions, estimating
  returns, logging and exporting parameters leave no mark.\<close>

datatype mark = Reset | Step | Cycle | Update

definition marker :: "('o, 'w, 'g) event \<Rightarrow> mark option" where
  "marker ev =
     (case ev of
        Env_reset \<Rightarrow> Some Reset
      | Env_step a \<Rightarrow> Some Step
      | Convert_to_tensor \<Rightarrow> Some Cycle
      | Agent_call v c \<Rightarrow>
          if stage1_call c \<or> consensus_call c \<or> actor_call c then Some Update else None
      | _ \<Rightarrow> None)"

definition marks :: "('o, 'w, 'g) event list \<Rightarrow> mark list" where
  "marks evs = List.map_filter marker evs"


text \<open>Everything of a state that calls on agents leave alone.\<close>

definition frame ::
  "('e, 'ag, 's, 'o, 'w, 'g) state \<Rightarrow>
   'e \<times> 's list \<times> 's list \<times> real list list \<times> real list list \<times> 'o list option \<times>
   'o list option \<times> 's option \<times> 'o option \<times> real list option \<times> bool \<times> nat" where
  "frame s =
     (env s, states s, nstates s, actions s, rewards s, observations s, nobservations s,
      var_state s, var_observation s, var_ep_returns s, var_run_dir s, length (agents s))"

text \<open>State \<open>s\<close> is reached from \<open>s0\<close> by calls on agents only.\<close>

definition agents_only ::
  "('e, 'ag, 's, 'o, 'w, 'g) state \<Rightarrow> ('e, 'ag, 's, 'o, 'w, 'g) state \<Rightarrow> bool" where
  "agents_only s0 s \<longleftrightarrow>
     frame s = frame s0 \<and> (\<exists>evs. trace s = trace s0 @ evs \<and> list_all agent_event evs)"

text \<open>A configuration with three labels for two agents, no Cooperative node, and
  \<open>common_reward\<close> set.\<close>

definition unchecked_args :: args where
  "unchecked_args =
     \<lparr>n_agents = 2, n_states = 1,
      agent_label = [''Greedy'', ''Greedy'', ''Greedy''],
      gamma = 1 / 2, in_nodes = Map.empty,
      max_ep_len = 1, n_episodes = 1, n_ep_fixed = 1, n_epochs = 1, batch_size = 1,
      buffer_size = 3, common_reward = True\<rparr>"


section \<open>Running single statements\<close>

lemmas cmd_defs = eval_def seq_def modify_def pass_def raise_def call_ret_def call_agent_def
  assign_x_def assign_y_def the_var_def the_list_def

lemmas demo_defs = demo_agents_def demo_env_def demo_args_def demo_state_def demo_batch_def
  initial_state_def nth_or_raise_def column_def

subsection \<open>Stage I, one node\<close>

lemma malicious_run:
  assumes "nth_or_raise (agent_label P) node = Inr ''Malicious''"
    and "node < length (agents s)"
    and "column node (b_r b) = Inr r_node"
  shows
    "local_updates A P b node s =
       (let c1 = critic_update_local (b_obs b) (b_nobs b) r_node;
            c2 = TR_update_compromised (b_sa b) (map uminus (b_r_coop b));
            c3 = critic_update_compromised (b_obs b) (b_nobs b) (map uminus (b_r_coop b));
            ag1 = effect A c1 (agents s ! node);
            ag2 = effect A c2 ag1;
            x = ret_weights A c2 ag1;
            y = ret_weights A c3 ag2
        in (None, s\<lparr>agents := (agents s)[node := effect A c3 ag2],
                     var_x := Some x, var_y := Some y,
                     TR_weights := TR_weights s @ [x],
                     critic_weights := critic_weights s @ [y],
                     trace := trace s @ [Agent_call node c1, Agent_call node c2, Agent_call node c3]\<rparr>))"
  using assms
  by (simp add: local_updates_def cmd_defs Let_def)

lemma greedy_run:
  assumes "nth_or_raise (agent_label P) node = Inr ''Greedy''"
    and "node < length (agents s)"
    and "column node (b_r b) = Inr r_node"
  shows
    "local_updates A P b node s =
       (let c1 = TR_update_local (b_sa b) r_node;
            c2 = critic_update_local (b_obs b) (b_nobs b) r_node;
            ag1 = effect A c1 (agents s ! node);
            x = ret_weights A c1 (agents s ! node);
            y = ret_weights A c2 ag1
        in (None, s\<lparr>agents := (agents s)[node := effect A c2 ag1],
                     var_x := Some x, var_y := Some y,
                     TR_weights := TR_weights s @ [x],
                     critic_weights := critic_weights s @ [y],
                     trace := trace s @ [Agent_call node c1, Agent_call node c2]\<rparr>))"
  using assms
  by (simp add: local_updates_def cmd_defs Let_def)

lemma cooperative_run:
  assumes "nth_or_raise (agent_label P) node = Inr ''Cooperative''"
    and "node < length (agents s)"
    and "(if common_reward P then Inr (b_r_coop b) else column node (b_r b)) = Inr r_applied"
  shows
    "local_updates A P b node s =
       (let c1 = TR_update_local (b_sa b) r_applied;
            c2 = critic_update_local (b_obs b) (b_nobs b) r_applied;
            ag1 = effect A c1 (agents s ! node);
            x = ret_weights A c1 (agents s ! node);
            y = ret_weights A c2 ag1
        in (None, s\<lparr>agents := (agents s)[node := effect A c2 ag1],
                     var_x := Some x, var_y := Some y,
                     TR_weights := TR_weights s @ [x],
                     critic_weights := critic_weights s @ [y],
                     trace := trace s @ [Agent_call node c1, Agent_call node c2]\<rparr>))"
  using assms
  by (simp add: local_updates_def cmd_defs Let_def)

subsection \<open>Stage III, one node\<close>


section \<open>What statements add to the trace\<close>


lemma emitsD: "emits Q c \<Longrightarrow> \<exists>evs. trace (snd (c s)) = trace s @ evs \<and> list_all Q evs"
  by (simp add: emits_def)

lemma emits_emitted:
  "emits Q c \<Longrightarrow> trace (snd (c s)) = trace s @ emitted c s \<and> list_all Q (emitted c s)"
  using emitsD[of Q c s] by (auto simp: emitted_def)


















section \<open>The calls of each stage\<close>






lemma add_returns_trace: "trace (snd (add_returns v s)) = trace s"
  by (simp add: add_returns_def split: option.splits)

lemma emits_add_returns: "emits Q (add_returns v)"
  by (simp add: emits_def add_returns_trace)










section \<open>Running the first episode\<close>


lemma frameD:
  "frame s' = frame s \<Longrightarrow>
   env s' = env s \<and> states s' = states s \<and> nstates s' = nstates s \<and> actions s' = actions s \<and>
   rewards s' = rewards s \<and> observations s' = observations s \<and>
   nobservations s' = nobservations s \<and> var_state s' = var_state s \<and>
   var_observation s' = var_observation s \<and> var_ep_returns s' = var_ep_returns s \<and>
   var_run_dir s' = var_run_dir s \<and> length (agents s') = length (agents s)"
  by (simp add: frame_def)

lemma agents_only_refl: "agents_only s s"
  by (simp add: agents_only_def)

lemma agents_only_call:
  assumes "agents_only s0 s1" and "frame s2 = frame s1"
    and "trace s2 = trace s1 @ [Agent_call v c]"
  shows "agents_only s0 s2"
proof -
  from assms(1) obtain evs where
    f: "frame s1 = frame s0" and t: "trace s1 = trace s0 @ evs" and a: "list_all agent_event evs"
    by (auto simp: agents_only_def)
  have "trace s2 = trace s0 @ (evs @ [Agent_call v c])" using t assms(3) by simp
  moreover have "list_all agent_event (evs @ [Agent_call v c])"
    using a by (simp add: agent_event_def)
  ultimately show ?thesis using f assms(2) unfolding agents_only_def by metis
qed




lemma seq_None: "c s = (None, s1) \<Longrightarrow> seq c d s = d s1"
  by (simp add: seq_def)

lemma seq_Some: "c s = (Some e, s1) \<Longrightarrow> seq c d s = (Some e, s1)"
  by (simp add: seq_def)

lemma eval_Inr: "e s = Inr v \<Longrightarrow> eval e k s = k v s"
  by (simp add: eval_def)

lemma eval_Inl: "e s = Inl err \<Longrightarrow> eval e k s = (Some err, s)"
  by (simp add: eval_def)

lemma seq_eval_Inr: "e s = Inr v \<Longrightarrow> seq (eval e k) d s = seq (k v) d s"
  by (simp add: seq_def eval_def)

lemma seq_assoc: "seq (seq c d) e = seq c (seq d e)"
  by (rule ext) (simp add: seq_def split: prod.splits option.splits)





lemma episodes_first_raises:
  assumes "1 \<le> n_episodes P" and "episode A E P 0 s = (Some e, s')"
  shows "for_each (map int [0..<nat (n_episodes P)]) (episode A E P) s = (Some e, s')"
proof -
  have "[0..<nat (n_episodes P)] = 0 # [Suc 0..<nat (n_episodes P)]"
    using assms(1) by (simp add: upt_conv_Cons)
  then show ?thesis using assms(2) by simp
qed

lemma train_first_raises:
  assumes "1 \<le> n_episodes P"
    and "episode A E P 0 (initial_state env0 agents0 buf) = (Some e, s')"
  shows "train_RPBCAC A E P env0 agents0 buf = (Some e, s')"
  unfolding train_RPBCAC_def
  by (simp add: seq_def episodes_first_raises[OF assms])

section \<open>Malicious nodes in Stage I\<close>

text \<open>
  Claim C7. In a Stage I pass, a node labelled Malicious whose own reward column
  \<open>r[:, node]\<close> is \<open>r_node\<close> makes exactly three calls, in this order: a local critic
  update on \<open>r_node\<close>, a compromised TR update and a compromised critic update, both with
  target \<open>-r_coop\<close>. The snapshots it appends to \<open>TR_weights\<close> and \<open>critic_weights\<close> are the
  ones returned by the two compromised updates, not by the local critic update. This holds
  whatever \<open>common_reward\<close> is.
\<close>

theorem malicious_broadcasts_compromised:
  assumes "nth_or_raise (agent_label P) node = Inr ''Malicious''"
    and "node < length (agents s)"
    and "column node (b_r b) = Inr r_node"
  shows
    "\<exists>s'. local_updates A P b node s = (None, s') \<and>
       emitted (local_updates A P b node) s =
         [Agent_call node (critic_update_local (b_obs b) (b_nobs b) r_node),
          Agent_call node (TR_update_compromised (b_sa b) (map uminus (b_r_coop b))),
          Agent_call node (critic_update_compromised (b_obs b) (b_nobs b) (map uminus (b_r_coop b)))] \<and>
       TR_weights s' = TR_weights s @
         [ret_weights A (TR_update_compromised (b_sa b) (map uminus (b_r_coop b)))
            (effect A (critic_update_local (b_obs b) (b_nobs b) r_node) (agents s ! node))] \<and>
       critic_weights s' = critic_weights s @
         [ret_weights A (critic_update_compromised (b_obs b) (b_nobs b) (map uminus (b_r_coop b)))
            (effect A (TR_update_compromised (b_sa b) (map uminus (b_r_coop b)))
               (effect A (critic_update_local (b_obs b) (b_nobs b) r_node) (agents s ! node)))]"
  by (simp add: malicious_run[OF assms] emitted_def Let_def)

theorem malicious_broadcasts_compromised_witness:
  "nth_or_raise (agent_label demo_args) 3 = Inr ''Malicious'' \<and>
   3 < length (agents demo_state) \<and>
   column 3 (b_r demo_batch) = Inr [4] \<and>
   emitted (local_updates demo_agents demo_args demo_batch 3) demo_state =
     [Agent_call 3 (critic_update_local [10] [11] [4]),
      Agent_call 3 (TR_update_compromised [(10, [0, 0, 0, 0])] [- (3 / 2)]),
      Agent_call 3 (critic_update_compromised [10] [11] [- (3 / 2)])] \<and>
   TR_weights (snd (local_updates demo_agents demo_args demo_batch 3 demo_state)) = [2] \<and>
   critic_weights (snd (local_updates demo_agents demo_args demo_batch 3 demo_state)) = [3]"
proof -
  have h1: "nth_or_raise (agent_label demo_args) 3 = Inr ''Malicious''"
    by (simp add: demo_defs)
  have h2: "3 < length (agents demo_state)"
    by (simp add: demo_defs)
  have h3: "column 3 (b_r demo_batch) = Inr [4]"
    by (simp add: demo_defs)
  from malicious_broadcasts_compromised[OF h1 h2 h3, of demo_agents]
  obtain s' where r: "local_updates demo_agents demo_args demo_batch 3 demo_state = (None, s')"
    and e: "emitted (local_updates demo_agents demo_args demo_batch 3) demo_state =
         [Agent_call 3 (critic_update_local (b_obs demo_batch) (b_nobs demo_batch) [4]),
          Agent_call 3 (TR_update_compromised (b_sa demo_batch) (map uminus (b_r_coop demo_batch))),
          Agent_call 3 (critic_update_compromised (b_obs demo_batch) (b_nobs demo_batch)
             (map uminus (b_r_coop demo_batch)))]"
    and x: "TR_weights s' = TR_weights demo_state @
         [ret_weights demo_agents (TR_update_compromised (b_sa demo_batch) (map uminus (b_r_coop demo_batch)))
            (effect demo_agents (critic_update_local (b_obs demo_batch) (b_nobs demo_batch) [4])
               (agents demo_state ! 3))]"
    and y: "critic_weights s' = critic_weights demo_state @
         [ret_weights demo_agents (critic_update_compromised (b_obs demo_batch) (b_nobs demo_batch)
              (map uminus (b_r_coop demo_batch)))
            (effect demo_agents (TR_update_compromised (b_sa demo_batch) (map uminus (b_r_coop demo_batch)))
               (effect demo_agents (critic_update_local (b_obs demo_batch) (b_nobs demo_batch) [4])
                  (agents demo_state ! 3)))]"
    by blast
  from e have e': "emitted (local_updates demo_agents demo_args demo_batch 3) demo_state =
     [Agent_call 3 (critic_update_local [10] [11] [4]),
      Agent_call 3 (TR_update_compromised [(10, [0, 0, 0, 0])] [- (3 / 2)]),
      Agent_call 3 (critic_update_compromised [10] [11] [- (3 / 2)])]"
    by (simp add: demo_batch_def)
  from x have x': "TR_weights s' = [2]"
    by (simp add: demo_defs)
  from y have y': "critic_weights s' = [3]"
    by (simp add: demo_defs)
  from h1 h2 h3 e' x' y' r show ?thesis by simp
qed

section \<open>The team-average reward\<close>









section \<open>The common-reward flag\<close>

text \<open>
  Claim C1, as stated, fails: with \<open>common_reward\<close> set, the Greedy node of the concrete run
  passes its own reward \<open>[3]\<close>, not \<open>r_coop = [3 / 2]\<close>, to its local updates.
\<close>

theorem common_reward_uniform_counterexample:
  "\<not> (common_reward demo_args \<longrightarrow>
        (\<forall>node<n_agents demo_args.
           \<forall>ev\<in>set (emitted (local_updates demo_agents demo_args demo_batch node) demo_state).
             \<forall>v c r. ev = Agent_call v c \<and> local_update_reward c = Some r \<longrightarrow> r = b_r_coop demo_batch))"
proof
  assume a: "common_reward demo_args \<longrightarrow>
        (\<forall>node<n_agents demo_args.
           \<forall>ev\<in>set (emitted (local_updates demo_agents demo_args demo_batch node) demo_state).
             \<forall>v c r. ev = Agent_call v c \<and> local_update_reward c = Some r \<longrightarrow> r = b_r_coop demo_batch)"
  have e2: "emitted (local_updates demo_agents demo_args demo_batch 2) demo_state =
     [Agent_call 2 (TR_update_local [(10, [0, 0, 0, 0])] [3]),
      Agent_call 2 (critic_update_local [10] [11] [3])]"
    by (simp add: emitted_def local_updates_def cmd_defs demo_defs Let_def)
  have "common_reward demo_args" and "(2::nat) < n_agents demo_args"
    by (simp_all add: demo_args_def)
  with a e2 have "local_update_reward (TR_update_local [(10::nat, [0, 0, 0, 0])] [3] :: (nat, nat, nat) call) = Some [3]
      \<longrightarrow> [3] = b_r_coop demo_batch"
    by (metis list.set_intros(1))
  then show False by (simp add: local_update_reward_def demo_batch_def)
qed

text \<open>
  Claim C1, amended. When \<open>common_reward\<close> is set, \<open>r_coop\<close> is the update reward of the
  Cooperative nodes only: a Cooperative node passes \<open>r_coop\<close> to its local TR and critic
  updates; a Greedy node passes its own reward column \<open>r[:, node]\<close> to both; a Malicious
  node passes its own reward column to its local critic update and \<open>-r_coop\<close> to its two
  compromised updates.
\<close>

theorem common_reward_reaches_cooperative_nodes_only:
  assumes "common_reward P" and "node < length (agents s)"
    and "column node (b_r b) = Inr r_node"
  shows
    "(nth_or_raise (agent_label P) node = Inr ''Cooperative'' \<longrightarrow>
        emitted (local_updates A P b node) s =
          [Agent_call node (TR_update_local (b_sa b) (b_r_coop b)),
           Agent_call node (critic_update_local (b_obs b) (b_nobs b) (b_r_coop b))]) \<and>
     (nth_or_raise (agent_label P) node = Inr ''Greedy'' \<longrightarrow>
        emitted (local_updates A P b node) s =
          [Agent_call node (TR_update_local (b_sa b) r_node),
           Agent_call node (critic_update_local (b_obs b) (b_nobs b) r_node)]) \<and>
     (nth_or_raise (agent_label P) node = Inr ''Malicious'' \<longrightarrow>
        emitted (local_updates A P b node) s =
          [Agent_call node (critic_update_local (b_obs b) (b_nobs b) r_node),
           Agent_call node (TR_update_compromised (b_sa b) (map uminus (b_r_coop b))),
           Agent_call node (critic_update_compromised (b_obs b) (b_nobs b) (map uminus (b_r_coop b)))])"
proof (intro conjI impI)
  assume l: "nth_or_raise (agent_label P) node = Inr ''Cooperative''"
  have "(if common_reward P then Inr (b_r_coop b) else column node (b_r b)) = Inr (b_r_coop b)"
    using assms(1) by simp
  from cooperative_run[OF l assms(2) this, of A]
  show "emitted (local_updates A P b node) s =
          [Agent_call node (TR_update_local (b_sa b) (b_r_coop b)),
           Agent_call node (critic_update_local (b_obs b) (b_nobs b) (b_r_coop b))]"
    by (simp add: emitted_def Let_def)
next
  assume l: "nth_or_raise (agent_label P) node = Inr ''Greedy''"
  from greedy_run[OF l assms(2,3), of A]
  show "emitted (local_updates A P b node) s =
          [Agent_call node (TR_update_local (b_sa b) r_node),
           Agent_call node (critic_update_local (b_obs b) (b_nobs b) r_node)]"
    by (simp add: emitted_def Let_def)
next
  assume l: "nth_or_raise (agent_label P) node = Inr ''Malicious''"
  from malicious_run[OF l assms(2,3), of A]
  show "emitted (local_updates A P b node) s =
          [Agent_call node (critic_update_local (b_obs b) (b_nobs b) r_node),
           Agent_call node (TR_update_compromised (b_sa b) (map uminus (b_r_coop b))),
           Agent_call node (critic_update_compromised (b_obs b) (b_nobs b) (map uminus (b_r_coop b)))]"
    by (simp add: emitted_def Let_def)
qed

theorem common_reward_reaches_cooperative_nodes_only_witness:
  "common_reward demo_args \<and> 2 < length (agents demo_state) \<and>
   column 0 (b_r demo_batch) = Inr [1] \<and> column 2 (b_r demo_batch) = Inr [3] \<and>
   nth_or_raise (agent_label demo_args) 0 = Inr ''Cooperative'' \<and>
   nth_or_raise (agent_label demo_args) 2 = Inr ''Greedy'' \<and>
   emitted (local_updates demo_agents demo_args demo_batch 0) demo_state =
     [Agent_call 0 (TR_update_local [(10, [0, 0, 0, 0])] [3 / 2]),
      Agent_call 0 (critic_update_local [10] [11] [3 / 2])] \<and>
   emitted (local_updates demo_agents demo_args demo_batch 2) demo_state =
     [Agent_call 2 (TR_update_local [(10, [0, 0, 0, 0])] [3]),
      Agent_call 2 (critic_update_local [10] [11] [3])]"
proof -
  have h1: "common_reward demo_args" by (simp add: demo_args_def)
  have h2: "2 < length (agents demo_state)" and h2': "0 < length (agents demo_state)"
    by (simp_all add: demo_defs)
  have h3: "column 0 (b_r demo_batch) = Inr [1]" and h4: "column 2 (b_r demo_batch) = Inr [3]"
    by (simp_all add: demo_defs)
  have l0: "nth_or_raise (agent_label demo_args) 0 = Inr ''Cooperative''"
    and l2: "nth_or_raise (agent_label demo_args) 2 = Inr ''Greedy''"
    by (simp_all add: demo_defs)
  from common_reward_reaches_cooperative_nodes_only[OF h1 h2' h3, of demo_agents] l0
  have e0: "emitted (local_updates demo_agents demo_args demo_batch 0) demo_state =
     [Agent_call 0 (TR_update_local [(10, [0, 0, 0, 0])] [3 / 2]),
      Agent_call 0 (critic_update_local [10] [11] [3 / 2])]"
    by (simp add: demo_batch_def)
  from common_reward_reaches_cooperative_nodes_only[OF h1 h2 h4, of demo_agents] l2
  have e2: "emitted (local_updates demo_agents demo_args demo_batch 2) demo_state =
     [Agent_call 2 (TR_update_local [(10, [0, 0, 0, 0])] [3]),
      Agent_call 2 (critic_update_local [10] [11] [3])]"
    by (simp add: demo_batch_def)
  from h1 h2 h3 h4 l0 l2 e0 e2 show ?thesis by simp
qed

section \<open>Actor updates\<close>





section \<open>The buffer trim\<close>

text \<open>
  Claim C5. Whatever transitions the six experience lists hold, as long as they hold
  equally many (they are appended to together) and \<open>buffer_size\<close> is not negative, the
  trim of lines 173-180 completes and leaves in each list exactly its last \<open>buffer_size\<close>
  entries, in their order; so each list has at most \<open>buffer_size\<close> entries.
\<close>

theorem trim_buffers_keeps_latest:
  assumes "0 \<le> buffer_size P"
    and "observations s = Some obs" and "nobservations s = Some nobs"
    and "length (nstates s) = length (states s)" and "length (actions s) = length (states s)"
    and "length (rewards s) = length (states s)" and "length obs = length (states s)"
    and "length nobs = length (states s)"
  shows "\<exists>s'. trim_buffers P s = (None, s') \<and>
     states s' = latest (nat (buffer_size P)) (states s) \<and>
     nstates s' = latest (nat (buffer_size P)) (nstates s) \<and>
     actions s' = latest (nat (buffer_size P)) (actions s) \<and>
     rewards s' = latest (nat (buffer_size P)) (rewards s) \<and>
     observations s' = Some (latest (nat (buffer_size P)) obs) \<and>
     nobservations s' = Some (latest (nat (buffer_size P)) nobs) \<and>
     length (states s') \<le> nat (buffer_size P) \<and>
     length (nstates s') \<le> nat (buffer_size P) \<and>
     length (actions s') \<le> nat (buffer_size P) \<and>
     length (rewards s') \<le> nat (buffer_size P) \<and>
     length (latest (nat (buffer_size P)) obs) \<le> nat (buffer_size P) \<and>
     length (latest (nat (buffer_size P)) nobs) \<le> nat (buffer_size P)"
proof (cases "int (length (states s)) > buffer_size P")
  case True
  then have q: "nat (int (length (states s)) - buffer_size P) = length (states s) - nat (buffer_size P)"
    using assms(1) by linarith
  show ?thesis
    using True assms q
    by (simp add: trim_buffers_def cmd_defs del_prefix_def latest_def Let_def)
next
  case False
  then have "length (states s) - nat (buffer_size P) = 0"
    using assms(1) by linarith
  then show ?thesis
    using False assms
    by (simp add: trim_buffers_def latest_def)
qed

theorem trim_buffers_keeps_latest_witness:
  "0 \<le> buffer_size demo_args \<and>
   observations demo_full_state = Some [10, 11, 12, 13, 14] \<and>
   nobservations demo_full_state = Some [11, 12, 13, 14, 15] \<and>
   length (states demo_full_state) = 5 \<and>
   fst (trim_buffers demo_args demo_full_state) = None \<and>
   states (snd (trim_buffers demo_args demo_full_state)) = [2, 3, 4] \<and>
   nstates (snd (trim_buffers demo_args demo_full_state)) = [3, 4, 5] \<and>
   actions (snd (trim_buffers demo_args demo_full_state)) = [[2], [3], [4]] \<and>
   rewards (snd (trim_buffers demo_args demo_full_state)) = [[7], [8], [9]] \<and>
   observations (snd (trim_buffers demo_args demo_full_state)) = Some [12, 13, 14] \<and>
   nobservations (snd (trim_buffers demo_args demo_full_state)) = Some [13, 14, 15]"
proof -
  have h1: "0 \<le> buffer_size demo_args"
    by (simp add: demo_args_def)
  have h2: "observations demo_full_state = Some [10, 11, 12, 13, 14]"
    and h3: "nobservations demo_full_state = Some [11, 12, 13, 14, 15]"
    by (simp_all add: demo_full_state_def)
  have h4: "length (nstates demo_full_state) = length (states demo_full_state)"
    and h5: "length (actions demo_full_state) = length (states demo_full_state)"
    and h6: "length (rewards demo_full_state) = length (states demo_full_state)"
    and h7: "length [10, 11, 12, 13, 14 :: nat] = length (states demo_full_state)"
    and h8: "length [11, 12, 13, 14, 15 :: nat] = length (states demo_full_state)"
    by (simp_all add: demo_full_state_def)
  from trim_buffers_keeps_latest[OF h1 h2 h3 h4 h5 h6 h7 h8]
  obtain s' where r: "trim_buffers demo_args demo_full_state = (None, s')"
    and k: "states s' = latest (nat (buffer_size demo_args)) (states demo_full_state)"
      "nstates s' = latest (nat (buffer_size demo_args)) (nstates demo_full_state)"
      "actions s' = latest (nat (buffer_size demo_args)) (actions demo_full_state)"
      "rewards s' = latest (nat (buffer_size demo_args)) (rewards demo_full_state)"
      "observations s' = Some (latest (nat (buffer_size demo_args)) [10, 11, 12, 13, 14])"
      "nobservations s' = Some (latest (nat (buffer_size demo_args)) [11, 12, 13, 14, 15])"
    by blast
  from k have "states s' = [2, 3, 4]" "nstates s' = [3, 4, 5]" "actions s' = [[2], [3], [4]]"
    "rewards s' = [[7], [8], [9]]" "observations s' = Some [12, 13, 14]"
    "nobservations s' = Some [13, 14, 15]"
    by (simp_all add: latest_def demo_full_state_def demo_args_def)
  with r h1 h2 h3 show ?thesis
    by (simp add: demo_full_state_def)
qed

section \<open>Stage II: resilient consensus\<close>

lemma gather_Inr:
  "gather ws nb = Inr out \<Longrightarrow>
   length out = length nb \<and> (\<forall>k<length nb. py_index ws (nb ! k) = Inr (out ! k))"
proof (induction nb arbitrary: out)
  case Nil
  then show ?case by simp
next
  case (Cons i nb)
  from Cons.prems obtain w rest where
    w: "py_index ws i = Inr w" and rest: "gather ws nb = Inr rest" and out: "out = w # rest"
    by (auto split: sum.splits)
  from Cons.IH[OF rest] have
    len: "length rest = length nb" and nth: "\<forall>k<length nb. py_index ws (nb ! k) = Inr (rest ! k)"
    by simp_all
  have "\<forall>k<length (i # nb). py_index ws ((i # nb) ! k) = Inr (out ! k)"
  proof (intro allI impI)
    fix k assume "k < length (i # nb)"
    then show "py_index ws ((i # nb) ! k) = Inr (out ! k)"
      using w nth out by (cases k) simp_all
  qed
  with len out show ?case by simp
qed

lemma innodes_Inr: "innodes P v weights = Inr ws \<Longrightarrow> from_in_nodes P v weights ws"
  unfolding innodes_def from_in_nodes_def
  by (auto split: option.splits dest: gather_Inr)

lemma consensus_node:
  assumes "consensus_updates A P b v s = (r, s')"
  shows "critic_weights s' = critic_weights s \<and> TR_weights s' = TR_weights s \<and>
     (\<exists>evs. trace s' = trace s @ evs \<and>
        list_all (consensus_event P v (critic_weights s) (TR_weights s)) evs)"
proof (cases "nth_or_raise (agent_label P) v = Inr ''Cooperative''")
  case False
  with assms show ?thesis
    by (auto simp: consensus_updates_def cmd_defs split: sum.splits)
next
  case coop: True
  show ?thesis
  proof (cases "innodes P v (critic_weights s)")
    case (Inl e)
    with assms coop show ?thesis by (auto simp: consensus_updates_def cmd_defs)
  next
    case cw: (Inr cwi)
    show ?thesis
    proof (cases "innodes P v (TR_weights s)")
      case (Inl e)
      with assms coop cw show ?thesis by (auto simp: consensus_updates_def cmd_defs)
    next
      case tw: (Inr twi)
      note f = innodes_Inr[OF cw] innodes_Inr[OF tw]
      show ?thesis
      proof (cases "v < length (agents s)")
        case False
        with assms coop cw tw show ?thesis by (auto simp: consensus_updates_def cmd_defs)
      next
        case True
        with assms coop cw tw f show ?thesis
          by (auto simp: consensus_updates_def cmd_defs Let_def consensus_event_def
              consensus_call_def critic_snapshots_def TR_snapshots_def)
      qed
    qed
  qed
qed


lemma for_each_Cons_None:
  "body x s = (None, s1) \<Longrightarrow> for_each (x # xs) body s = for_each xs body s1"
  by simp

lemma for_each_Cons_Some:
  "body x s = (Some e, s1) \<Longrightarrow> for_each (x # xs) body s = (Some e, s1)"
  by simp

lemma consensus_loop:
  assumes "for_each nodes (consensus_updates A P b) s = (r, s')"
  shows "critic_weights s' = critic_weights s \<and> TR_weights s' = TR_weights s \<and>
     (\<exists>evs. trace s' = trace s @ evs \<and>
        list_all (\<lambda>ev. \<exists>v\<in>set nodes. consensus_event P v (critic_weights s) (TR_weights s) ev) evs)"
  using assms
proof (induction nodes arbitrary: s)
  case Nil
  then show ?case by simp
next
  case (Cons v nodes)
  obtain r1 s1 where b: "consensus_updates A P b v s = (r1, s1)"
    by (cases "consensus_updates A P b v s")
  from consensus_node[OF b] obtain e1 where
    w1: "critic_weights s1 = critic_weights s" "TR_weights s1 = TR_weights s"
    and t1: "trace s1 = trace s @ e1"
    and q1: "list_all (consensus_event P v (critic_weights s) (TR_weights s)) e1"
    by blast
  have q1': "list_all (\<lambda>ev. \<exists>u\<in>set (v # nodes).
       consensus_event P u (critic_weights s) (TR_weights s) ev) e1"
    using q1 by (auto simp: list_all_iff)
  show ?case
  proof (cases r1)
    case (Some e)
    with b Cons.prems have "s' = s1" by simp
    with t1 q1' have "\<exists>evs. trace s' = trace s @ evs \<and>
        list_all (\<lambda>ev. \<exists>u\<in>set (v # nodes).
          consensus_event P u (critic_weights s) (TR_weights s) ev) evs"
      by (rule_tac x = e1 in exI) simp
    with w1 \<open>s' = s1\<close> show ?thesis by simp
  next
    case None
    with b Cons.prems have "for_each nodes (consensus_updates A P b) s1 = (r, s')" by simp
    from Cons.IH[OF this] obtain e2 where
      w2: "critic_weights s' = critic_weights s1" "TR_weights s' = TR_weights s1"
      and t2: "trace s' = trace s1 @ e2"
      and q2: "list_all (\<lambda>ev. \<exists>u\<in>set nodes.
         consensus_event P u (critic_weights s1) (TR_weights s1) ev) e2"
      by blast
    have q2': "list_all (\<lambda>ev. \<exists>u\<in>set (v # nodes).
       consensus_event P u (critic_weights s) (TR_weights s) ev) e2"
      using q2 w1 by (auto simp: list_all_iff)
    from t1 t2 have tt: "trace s' = trace s @ (e1 @ e2)" by simp
    from q1' q2' have qq: "list_all (\<lambda>ev. \<exists>u\<in>set (v # nodes).
       consensus_event P u (critic_weights s) (TR_weights s) ev) (e1 @ e2)" by simp
    from tt qq have "\<exists>evs. trace s' = trace s @ evs \<and>
        list_all (\<lambda>ev. \<exists>u\<in>set (v # nodes).
          consensus_event P u (critic_weights s) (TR_weights s) ev) evs"
      by (rule_tac x = "e1 @ e2" in exI) simp
    with w1 w2 show ?thesis by simp
  qed
qed

lemma demo_nodes: "[0..<n_agents demo_args] = [0, 1, 2, 3]"
  by (simp add: demo_args_def upt_rec)

lemma demo_consensus_run:
  "for_each [0..<n_agents demo_args] (consensus_updates demo_agents demo_args demo_batch)
     demo_consensus_state =
   (None, demo_consensus_state\<lparr>agents := [6, 6, 0, 0],
      trace :=
        [Agent_call 0 (resilient_consensus_critic_hidden [21, 22]),
         Agent_call 0 (resilient_consensus_TR_hidden [11, 12]),
         Agent_call 0 (resilient_consensus_critic [10] [21, 22]),
         Agent_call 0 (resilient_consensus_TR [(10, [0, 0, 0, 0])] [11, 12]),
         Agent_call 0 (critic_update_team [10] 3),
         Agent_call 0 (TR_update_team [(10, [0, 0, 0, 0])] 4),
         Agent_call 1 (resilient_consensus_critic_hidden [20, 23]),
         Agent_call 1 (resilient_consensus_TR_hidden [10, 13]),
         Agent_call 1 (resilient_consensus_critic [10] [20, 23]),
         Agent_call 1 (resilient_consensus_TR [(10, [0, 0, 0, 0])] [10, 13]),
         Agent_call 1 (critic_update_team [10] 3),
         Agent_call 1 (TR_update_team [(10, [0, 0, 0, 0])] 4)]\<rparr>)"
  unfolding demo_nodes
  by (simp add: consensus_updates_def cmd_defs demo_defs demo_consensus_state_def innodes_def
      py_index_def Let_def)

text \<open>
  Claim C6. In every Stage II pass, however it ends, the two snapshot lists are left as
  Stage I built them, and every call the pass makes is a consensus or team-update call of
  a node \<open>v\<close> of \<open>range(n_agents)\<close> labelled Cooperative; the critic (TR) snapshots such a
  call consumes are, entry by entry and in the order of \<open>in_nodes[v]\<close>, the entries of the
  critic (TR) snapshot list at the positions listed in \<open>in_nodes[v]\<close>. Nodes with any other
  label make no call.
\<close>

theorem consensus_reads_only_in_nodes:
  assumes "for_each [0..<n_agents P] (consensus_updates A P b) s = (r, s')"
  shows "critic_weights s' = critic_weights s \<and> TR_weights s' = TR_weights s \<and>
     trace s' = trace s @ emitted (for_each [0..<n_agents P] (consensus_updates A P b)) s \<and>
     (\<forall>ev\<in>set (emitted (for_each [0..<n_agents P] (consensus_updates A P b)) s).
        \<exists>v<n_agents P. consensus_event P v (critic_weights s) (TR_weights s) ev)"
proof -
  from consensus_loop[OF assms] obtain evs where
    w: "critic_weights s' = critic_weights s" "TR_weights s' = TR_weights s"
    and t: "trace s' = trace s @ evs"
    and q: "list_all (\<lambda>ev. \<exists>v\<in>set [0..<n_agents P].
         consensus_event P v (critic_weights s) (TR_weights s) ev) evs"
    by blast
  from t assms have e: "emitted (for_each [0..<n_agents P] (consensus_updates A P b)) s = evs"
    by (simp add: emitted_def)
  from q have "\<forall>ev\<in>set evs. \<exists>v<n_agents P. consensus_event P v (critic_weights s) (TR_weights s) ev"
    unfolding list_all_iff by (metis atLeastLessThan_iff set_upt)
  with w t e show ?thesis by simp
qed

theorem consensus_reads_only_in_nodes_witness:
  "fst (for_each [0..<n_agents demo_args] (consensus_updates demo_agents demo_args demo_batch)
          demo_consensus_state) = None \<and>
   critic_weights (snd (for_each [0..<n_agents demo_args]
      (consensus_updates demo_agents demo_args demo_batch) demo_consensus_state)) = [20, 21, 22, 23] \<and>
   TR_weights (snd (for_each [0..<n_agents demo_args]
      (consensus_updates demo_agents demo_args demo_batch) demo_consensus_state)) = [10, 11, 12, 13] \<and>
   emitted (for_each [0..<n_agents demo_args] (consensus_updates demo_agents demo_args demo_batch))
      demo_consensus_state =
     [Agent_call 0 (resilient_consensus_critic_hidden [21, 22]),
      Agent_call 0 (resilient_consensus_TR_hidden [11, 12]),
      Agent_call 0 (resilient_consensus_critic [10] [21, 22]),
      Agent_call 0 (resilient_consensus_TR [(10, [0, 0, 0, 0])] [11, 12]),
      Agent_call 0 (critic_update_team [10] 3),
      Agent_call 0 (TR_update_team [(10, [0, 0, 0, 0])] 4),
      Agent_call 1 (resilient_consensus_critic_hidden [20, 23]),
      Agent_call 1 (resilient_consensus_TR_hidden [10, 13]),
      Agent_call 1 (resilient_consensus_critic [10] [20, 23]),
      Agent_call 1 (resilient_consensus_TR [(10, [0, 0, 0, 0])] [10, 13]),
      Agent_call 1 (critic_update_team [10] 3),
      Agent_call 1 (TR_update_team [(10, [0, 0, 0, 0])] 4)]"
proof -
  note run = demo_consensus_run
  from consensus_reads_only_in_nodes[OF run]
  have w: "critic_weights (snd (for_each [0..<n_agents demo_args]
        (consensus_updates demo_agents demo_args demo_batch) demo_consensus_state)) =
      critic_weights demo_consensus_state"
    "TR_weights (snd (for_each [0..<n_agents demo_args]
        (consensus_updates demo_agents demo_args demo_batch) demo_consensus_state)) =
      TR_weights demo_consensus_state"
    by (simp_all add: run)
  have e: "emitted (for_each [0..<n_agents demo_args]
        (consensus_updates demo_agents demo_args demo_batch)) demo_consensus_state =
     [Agent_call 0 (resilient_consensus_critic_hidden [21, 22]),
      Agent_call 0 (resilient_consensus_TR_hidden [11, 12]),
      Agent_call 0 (resilient_consensus_critic [10] [21, 22]),
      Agent_call 0 (resilient_consensus_TR [(10, [0, 0, 0, 0])] [11, 12]),
      Agent_call 0 (critic_update_team [10] 3),
      Agent_call 0 (TR_update_team [(10, [0, 0, 0, 0])] 4),
      Agent_call 1 (resilient_consensus_critic_hidden [20, 23]),
      Agent_call 1 (resilient_consensus_TR_hidden [10, 13]),
      Agent_call 1 (resilient_consensus_critic [10] [20, 23]),
      Agent_call 1 (resilient_consensus_TR [(10, [0, 0, 0, 0])] [10, 13]),
      Agent_call 1 (critic_update_team [10] 3),
      Agent_call 1 (TR_update_team [(10, [0, 0, 0, 0])] 4)]"
    unfolding emitted_def run
    by (simp add: demo_consensus_state_def demo_state_def initial_state_def)
  have f: "fst (for_each [0..<n_agents demo_args]
        (consensus_updates demo_agents demo_args demo_batch) demo_consensus_state) = None"
    unfolding run by simp
  have c: "critic_weights demo_consensus_state = [20, 21, 22, 23]"
    and t: "TR_weights demo_consensus_state = [10, 11, 12, 13]"
    by (simp_all add: demo_consensus_state_def)
  show ?thesis
    unfolding w c t using f e by (intro conjI refl)
qed

section \<open>The schedule of update cycles\<close>

lemma seq_NoneD: "seq c d s = (None, s') \<Longrightarrow> \<exists>s1. c s = (None, s1) \<and> d s1 = (None, s')"
  by (auto simp: seq_def split: prod.splits option.splits)

lemma block_ConsD:
  "block (c # cs) s = (None, s') \<Longrightarrow> \<exists>s1. c s = (None, s1) \<and> block cs s1 = (None, s')"
  by (simp add: seq_NoneD)

lemma block_NilD: "block [] s = (None, s') \<Longrightarrow> s' = s"
  by (simp add: pass_def)
















section \<open>Resuming from an experience buffer\<close>



section \<open>Configuration errors\<close>

lemma for_each_raises_at:
  assumes "\<And>x s1. x \<in> set xs \<Longrightarrow> I s1 \<Longrightarrow>
             \<exists>r s2. body x s1 = (r, s2) \<and> I s2 \<and> (r = None \<or> r = Some e)"
    and "\<And>s1. I s1 \<Longrightarrow> \<exists>s2. body y s1 = (Some e, s2) \<and> I s2"
    and "I s"
  shows "\<exists>s'. for_each (xs @ y # ys) body s = (Some e, s') \<and> I s'"
  using assms
proof (induction xs arbitrary: s)
  case Nil
  from Nil.prems(2)[OF Nil.prems(3)] show ?case by auto
next
  case (Cons x xs)
  from Cons.prems(1)[of x s] Cons.prems(3) obtain r s2 where
    b: "body x s = (r, s2)" and i: "I s2" and r: "r = None \<or> r = Some e"
    by auto
  show ?case
  proof (cases r)
    case None
    from Cons.IH[OF _ Cons.prems(2) i] Cons.prems(1) obtain s' where
      "for_each (xs @ y # ys) body s2 = (Some e, s')" "I s'"
      by auto
    with b None show ?thesis by simp
  next
    case (Some e')
    with r have "r = Some e" by simp
    with b i show ?thesis by simp
  qed
qed

lemma estimate_returns_short:
  assumes "length (agent_label P) < n_agents P" and "var_observation s = Some ob"
  shows "\<exists>s'. estimate_returns A P s = (Some IndexError, s') \<and> agents_only s s'"
proof -
  let ?L = "length (agent_label P)"
  let ?body = "\<lambda>node. eval (\<lambda>_. nth_or_raise (agent_label P) node)
          (\<lambda>label. if label = ''Cooperative''
             then eval (\<lambda>s. the_var ''observation'' (var_observation s))
                    (\<lambda>observation. call_agent A node (critic_estimate observation))
             else pass)"
  have split: "[0..<n_agents P] = [0..<?L] @ ?L # [Suc ?L..<n_agents P]"
    using assms(1) by (metis le0 upt_add_eq_append upt_conv_Cons le_add_diff_inverse less_imp_le_nat)
  have "\<exists>s'. for_each ([0..<?L] @ ?L # [Suc ?L..<n_agents P]) ?body s = (Some IndexError, s') \<and>
          agents_only s s'"
  proof (rule for_each_raises_at[where I = "agents_only s"])
    show "agents_only s s" by (rule agents_only_refl)
  next
    fix s1 assume "agents_only s s1"
    then show "\<exists>s2. ?body ?L s1 = (Some IndexError, s2) \<and> agents_only s s2"
      by (simp add: eval_def nth_or_raise_def)
  next
    fix x s1
    assume x: "x \<in> set [0..<?L]" and i: "agents_only s s1"
    from i have f: "frame s1 = frame s" by (simp add: agents_only_def)
    from frameD[OF f] assms x have
      l: "nth_or_raise (agent_label P) x = Inr (agent_label P ! x)"
      and o: "var_observation s1 = Some ob"
      by (simp_all add: nth_or_raise_def)
    show "\<exists>r s2. ?body x s1 = (r, s2) \<and> agents_only s s2 \<and> (r = None \<or> r = Some IndexError)"
    proof (cases "agent_label P ! x = ''Cooperative''")
      case False
      with l i show ?thesis by (simp add: eval_def pass_def)
    next
      case True
      show ?thesis
      proof (cases "x < length (agents s1)")
        case False
        with True l o i show ?thesis by (simp add: cmd_defs)
      next
        case a: True
        let ?s2 = "s1\<lparr>agents := (agents s1)[x := effect A (critic_estimate ob) (agents s1 ! x)],
                     trace := trace s1 @ [Agent_call x (critic_estimate ob)]\<rparr>"
        have "agents_only s ?s2"
          by (rule agents_only_call[OF i]) (simp_all add: frame_def)
        with True l a o show ?thesis by (simp add: cmd_defs Let_def)
      qed
    qed
  qed
  then show ?thesis unfolding estimate_returns_def split .
qed

lemma episode_short_labels:
  assumes "length (agent_label P) < n_agents P" and "n_ep_fixed P \<noteq> 0"
  shows "\<exists>s' evs. episode A E P t s = (Some IndexError, s') \<and>
     trace s' = trace s @ Env_reset # evs \<and> list_all agent_event evs \<and>
     states s' = states s \<and> nstates s' = nstates s \<and> actions s' = actions s \<and>
     rewards s' = rewards s"
proof -
  let ?i = "t mod n_ep_fixed P"
  let ?f1 = "\<lambda>s. s\<lparr>var_ep_returns := None, var_action := replicate (n_agents P) 0\<rparr>"
  let ?f2 = "\<lambda>s. s\<lparr>env := env_reset E (env s), trace := trace s @ [Env_reset]\<rparr>"
  let ?f3 = "\<lambda>s. s\<lparr>var_state := Some (fst (env_get_data E (env s))),
                      var_observation := Some (env_get_observations E (env s))\<rparr>"
  let ?s3 = "?f3 (?f2 (?f1 s))"
  have m1: "modify ?f1 s = (None, ?f1 s)" and m2: "modify ?f2 (?f1 s) = (None, ?f2 (?f1 s))"
    and m3: "modify ?f3 (?f2 (?f1 s)) = (None, ?s3)"
    by (simp_all add: modify_def)
  have ei: "(\<lambda>_. if n_ep_fixed P = 0 then Inl ZeroDivisionError else Inr ?i) (?f1 s) = Inr ?i"
    using assms(2) by simp
  have "var_observation ?s3 = Some (env_get_observations E (env_reset E (env s)))"
    by simp
  from estimate_returns_short[OF assms(1) this, of A] obtain s4 where
    est: "estimate_returns A P ?s3 = (Some IndexError, s4)" and a4: "agents_only ?s3 s4"
    by blast
  from a4 obtain e1 where f4: "frame s4 = frame ?s3" and t4: "trace s4 = trace ?s3 @ e1"
    and q1: "list_all agent_event e1"
    by (auto simp: agents_only_def)
  note d4 = frameD[OF f4]
  have ep: "episode A E P t s = (Some IndexError, s4)"
    unfolding episode_def
    by (simp only: block.simps seq_None[where c = "modify ?f1" and s = s, OF m1]
        seq_eval_Inr[where e = "\<lambda>_. if n_ep_fixed P = 0 then Inl ZeroDivisionError else Inr ?i"
          and s = "?f1 s", OF ei] seq_assoc
        seq_None[where c = "modify ?f2" and s = "?f1 s", OF m2]
        seq_None[where c = "modify ?f3" and s = "?f2 (?f1 s)", OF m3]
        seq_Some[where c = "estimate_returns A P" and s = "?s3", OF est])
  have "trace s4 = trace s @ Env_reset # e1" using t4 by simp
  moreover have "states s4 = states s" "nstates s4 = nstates s" "actions s4 = actions s"
    "rewards s4 = rewards s"
    using d4 by simp_all
  ultimately show ?thesis using ep q1 by blast
qed

text \<open>
  Claim C2, as stated, fails: nothing is validated at initialization. With three labels for
  two agents, no Cooperative node and \<open>common_reward\<close> set, the run does not fail at all:
  it plays its episode, runs an update cycle and returns.
\<close>

theorem configuration_errors_not_fatal_counterexample:
  "length (agent_label unchecked_args) \<noteq> n_agents unchecked_args \<and>
   n_coop unchecked_args = 0 \<and> common_reward unchecked_args \<and>
   fst (train_RPBCAC demo_agents demo_env unchecked_args 0 [0, 0] None
         :: error option \<times> (nat, nat, nat, nat, nat, nat) state) = None \<and>
   marks (trace (snd (train_RPBCAC demo_agents demo_env unchecked_args 0 [0, 0] None
         :: error option \<times> (nat, nat, nat, nat, nat, nat) state))) =
     [Reset, Step, Cycle, Update, Update, Update, Update, Update, Update]"
  by code_simp

text \<open>
  Claim C2, amended. \<open>train_RPBCAC\<close> validates no configuration at initialization. An
  \<open>agent_label\<close> shorter than \<open>n_agents\<close> makes it fail (given at least one episode and a
  nonzero \<open>n_ep_fixed\<close>), but only inside the first episode: the IndexError is raised after
  \<open>env.reset()\<close>, while the labels are read to estimate the returns, before any step is taken
  or any transition recorded.
\<close>

theorem short_agent_label_fails_in_first_episode:
  fixes A :: "('ag, 'o, 'w, 'g) agent_sem" and E :: "('e, 's, 'o) env_sem"
  assumes "length (agent_label P) < n_agents P" and "1 \<le> n_episodes P"
    and "n_ep_fixed P \<noteq> 0"
  shows "\<exists>s' evs.
     train_RPBCAC A E P env0 agents0 None = (Some IndexError, s') \<and>
     trace s' = Env_reset # evs \<and> list_all agent_event evs \<and>
     states s' = [] \<and> nstates s' = [] \<and> actions s' = [] \<and> rewards s' = []"
proof -
  let ?s0 = "initial_state env0 agents0 None :: ('e, 'ag, 's, 'o, 'w, 'g) state"
  from episode_short_labels[OF assms(1,3), of A E 0 ?s0] obtain s' evs where
    ep: "episode A E P 0 ?s0 = (Some IndexError, s')"
    and r: "trace s' = trace ?s0 @ Env_reset # evs" "list_all agent_event evs"
      "states s' = states ?s0" "nstates s' = nstates ?s0" "actions s' = actions ?s0"
      "rewards s' = rewards ?s0"
    by blast
  from train_first_raises[OF assms(2) ep] r show ?thesis
    by (simp add: initial_state_def)
qed

theorem short_agent_label_fails_in_first_episode_witness:
  "length (agent_label (demo_args\<lparr>agent_label := [''Cooperative'']\<rparr>)) <
     n_agents (demo_args\<lparr>agent_label := [''Cooperative'']\<rparr>) \<and>
   1 \<le> n_episodes (demo_args\<lparr>agent_label := [''Cooperative'']\<rparr>) \<and>
   n_ep_fixed (demo_args\<lparr>agent_label := [''Cooperative'']\<rparr>) \<noteq> 0 \<and>
   fst (train_RPBCAC demo_agents demo_env (demo_args\<lparr>agent_label := [''Cooperative'']\<rparr>)
          0 [0, 0, 0, 0] None
         :: error option \<times> (nat, nat, nat, nat, nat, nat) state) = Some IndexError \<and>
   trace (snd (train_RPBCAC demo_agents demo_env (demo_args\<lparr>agent_label := [''Cooperative'']\<rparr>)
          0 [0, 0, 0, 0] None
         :: error option \<times> (nat, nat, nat, nat, nat, nat) state)) =
     [Env_reset, Agent_call 0 (critic_estimate 10)]"
proof -
  let ?P = "demo_args\<lparr>agent_label := [''Cooperative'']\<rparr>"
  let ?run = "train_RPBCAC demo_agents demo_env ?P 0 [0, 0, 0, 0] None
         :: error option \<times> (nat, nat, nat, nat, nat, nat) state"
  have h1: "length (agent_label ?P) < n_agents ?P" and h2: "1 \<le> n_episodes ?P"
    and h3: "n_ep_fixed ?P \<noteq> 0"
    by (simp_all add: demo_args_def)
  from short_agent_label_fails_in_first_episode[OF h1 h2 h3, of demo_agents demo_env 0 "[0, 0, 0, 0]"]
  have f: "fst ?run = Some IndexError" by auto
  have t: "trace (snd ?run) = [Env_reset, Agent_call 0 (critic_estimate 10)]"
    by code_simp
  from h1 h2 h3 f t show ?thesis by (intro conjI)
qed

end
